theory Spec2Isabelle
  imports Complex_Main
begin

section \<open>Numbers and errors\<close>

text \<open>
  The analysis works on numpy \<open>float64\<close> values.  They are modelled as the extended
  reals with a not-a-number element: finite values are exact reals (rounding is not
  modelled, and neither is the sign of zero: a zero divisor counts as \<open>+0\<close>), and the
  exceptional values follow IEEE 754 as numpy applies it (a division by zero gives an
  infinity or NaN and a warning, never an exception).
\<close>

datatype fl = Fin real | PInf | NInf | NaN

datatype error =
    ValueError
  | IndexError
  | OverflowError
  | NameError
  | Stop string

fun fl_isnan :: "fl \<Rightarrow> bool" where
  "fl_isnan NaN = True"
| "fl_isnan _ = False"

fun fl_neg :: "fl \<Rightarrow> fl" where
  "fl_neg (Fin a) = Fin (- a)"
| "fl_neg PInf = NInf"
| "fl_neg NInf = PInf"
| "fl_neg NaN = NaN"

fun fl_add :: "fl \<Rightarrow> fl \<Rightarrow> fl" where
  "fl_add (Fin a) (Fin b) = Fin (a + b)"
| "fl_add NaN _ = NaN"
| "fl_add _ NaN = NaN"
| "fl_add PInf NInf = NaN"
| "fl_add NInf PInf = NaN"
| "fl_add PInf _ = PInf"
| "fl_add _ PInf = PInf"
| "fl_add NInf _ = NInf"
| "fl_add _ NInf = NInf"

definition fl_sub :: "fl \<Rightarrow> fl \<Rightarrow> fl" where
  "fl_sub a b = fl_add a (fl_neg b)"

text \<open>The sign of a value that is not NaN, as \<open>-1\<close>, \<open>0\<close> or \<open>1\<close>.\<close>

fun fl_sgn :: "fl \<Rightarrow> int" where
  "fl_sgn (Fin a) = (if a < 0 then - 1 else if a = 0 then 0 else 1)"
| "fl_sgn PInf = 1"
| "fl_sgn NInf = - 1"
| "fl_sgn NaN = 0"

fun fl_mul :: "fl \<Rightarrow> fl \<Rightarrow> fl" where
  "fl_mul (Fin a) (Fin b) = Fin (a * b)"
| "fl_mul a b =
     (if fl_isnan a \<or> fl_isnan b then NaN
      else if fl_sgn a * fl_sgn b = 0 then NaN
      else if fl_sgn a * fl_sgn b > 0 then PInf else NInf)"

fun fl_div :: "fl \<Rightarrow> fl \<Rightarrow> fl" where
  "fl_div (Fin a) (Fin b) =
     (if b \<noteq> 0 then Fin (a / b)
      else if a = 0 then NaN else if a > 0 then PInf else NInf)"
| "fl_div NaN _ = NaN"
| "fl_div _ NaN = NaN"
| "fl_div (Fin a) _ = Fin 0"
| "fl_div PInf (Fin b) = (if b \<ge> 0 then PInf else NInf)"
| "fl_div NInf (Fin b) = (if b \<ge> 0 then NInf else PInf)"
| "fl_div _ _ = NaN"

text \<open>Comparisons: every comparison with NaN is false.\<close>

fun fl_less :: "fl \<Rightarrow> fl \<Rightarrow> bool" where
  "fl_less (Fin a) (Fin b) = (a < b)"
| "fl_less NaN _ = False"
| "fl_less _ NaN = False"
| "fl_less _ NInf = False"
| "fl_less PInf _ = False"
| "fl_less _ _ = True"

definition fl_eq :: "fl \<Rightarrow> fl \<Rightarrow> bool" where
  "fl_eq a b = (a = b \<and> \<not> fl_isnan a)"

definition fl_le :: "fl \<Rightarrow> fl \<Rightarrow> bool" where
  "fl_le a b = (fl_less a b \<or> fl_eq a b)"

definition fl_gt :: "fl \<Rightarrow> fl \<Rightarrow> bool" where
  "fl_gt a b = fl_less b a"



fun fl_arctan :: "fl \<Rightarrow> fl" where
  "fl_arctan (Fin a) = Fin (arctan a)"
| "fl_arctan PInf = Fin (pi / 2)"
| "fl_arctan NInf = Fin (- (pi / 2))"
| "fl_arctan NaN = NaN"


text \<open>
  Python's builtin \<open>min(a, b)\<close> keeps its first argument unless the second is
  smaller, so \<open>min(nan, b)\<close> is \<open>nan\<close>.
\<close>

definition py_min :: "fl \<Rightarrow> fl \<Rightarrow> fl" where
  "py_min a b = (if fl_less b a then b else a)"

text \<open>
  \<open>np.int\<close> is Python's \<open>int\<close>: it truncates towards zero, and raises on an
  infinity (OverflowError) and on NaN (ValueError).
\<close>

definition trunc :: "real \<Rightarrow> int" where
  "trunc a = (if a \<ge> 0 then \<lfloor>a\<rfloor> else \<lceil>a\<rceil>)"

fun np_int :: "fl \<Rightarrow> error + int" where
  "np_int (Fin a) = Inr (trunc a)"
| "np_int NaN = Inl ValueError"
| "np_int _ = Inl OverflowError"

text \<open>\<open>np.sum\<close>, \<open>ndarray.min\<close> and \<open>ndarray.max\<close> over the elements of an array;
  the last two propagate NaN.\<close>

definition np_sum :: "fl list \<Rightarrow> fl" where
  "np_sum xs = foldl fl_add (Fin 0) xs"

definition fl_min2 :: "fl \<Rightarrow> fl \<Rightarrow> fl" where
  "fl_min2 a b = (if fl_isnan a \<or> fl_isnan b then NaN else if fl_less b a then b else a)"

definition fl_max2 :: "fl \<Rightarrow> fl \<Rightarrow> fl" where
  "fl_max2 a b = (if fl_isnan a \<or> fl_isnan b then NaN else if fl_less a b then b else a)"

fun amin :: "fl list \<Rightarrow> error + fl" where
  "amin [] = Inl ValueError"
| "amin (x # xs) = Inr (foldl fl_min2 x xs)"

fun amax :: "fl list \<Rightarrow> error + fl" where
  "amax [] = Inl ValueError"
| "amax (x # xs) = Inr (foldl fl_max2 x xs)"

section \<open>Position file\<close>

text \<open>
  A Python \<open>str\<close> is the list of its Unicode code points; \<open>str s\<close> is the \<open>str\<close> of an
  ASCII literal.
\<close>

type_synonym pystr = "nat list"

definition str :: "string \<Rightarrow> pystr" where
  "str s = map of_char s"

text \<open>\<open>s.split(sep)\<close> for a separator of one character.\<close>

fun split_on :: "'a \<Rightarrow> 'a list \<Rightarrow> 'a list list" where
  "split_on sep [] = [[]]"
| "split_on sep (c # cs) =
     (if c = sep then [] # split_on sep cs
      else (case split_on sep cs of
              [] \<Rightarrow> [[c]]
            | w # ws \<Rightarrow> (c # w) # ws))"

text \<open>
  \<open>s.strip()\<close> removes the leading and trailing whitespace of Python 3: the code points
  U+0009 to U+000D, U+001C to U+0020, U+0085, U+00A0, U+1680, U+2000 to U+200A, U+2028,
  U+2029, U+202F, U+205F and U+3000.
\<close>

definition is_space :: "nat \<Rightarrow> bool" where
  "is_space c =
     ((9 \<le> c \<and> c \<le> 13) \<or> (28 \<le> c \<and> c \<le> 32) \<or> c = 133 \<or> c = 160 \<or> c = 5760
      \<or> (8192 \<le> c \<and> c \<le> 8202) \<or> c = 8232 \<or> c = 8233 \<or> c = 8239 \<or> c = 8287
      \<or> c = 12288)"

definition strip :: "pystr \<Rightarrow> pystr" where
  "strip s = rev (dropWhile is_space (rev (dropWhile is_space s)))"

text \<open>
  \<open>s.lower()\<close> follows the case tables of the Unicode database of the Python library; it
  is a parameter \<open>lower\<close> of \<open>read_position\<close>.  On ASCII text it is \<open>ascii_lower\<close>.
\<close>

definition ascii_lower :: "pystr \<Rightarrow> pystr" where
  "ascii_lower s = map (\<lambda>c. if 65 \<le> c \<and> c \<le> 90 then c + 32 else c) s"

text \<open>The scale of a unit name, in metres; an unknown unit counts as millimetres.\<close>

definition unit_scale :: "pystr \<Rightarrow> real" where
  "unit_scale unit =
     (if unit = str ''m'' then 1
      else if unit = str ''mm'' then 1 / 10 ^ 3
      else if unit = str ''um'' then 1 / 10 ^ 6
      else if unit = str ''nm'' then 1 / 10 ^ 9
      else if unit = str ''pm'' then 1 / 10 ^ 12
      else 1 / 10 ^ 3)"

text \<open>
  \<open>read_position\<close>: \<open>lines\<close> are the lines of \<open>position.txt\<close> as \<open>readlines\<close>
  gives them, \<open>body\<close> the values \<open>np.loadtxt\<close> parsed after the two header lines.
  The unit is the text after the first \<open>=\<close> (code point 61) of the second line.
\<close>

definition read_position :: "(pystr \<Rightarrow> pystr) \<Rightarrow> pystr list \<Rightarrow> fl list \<Rightarrow> error + fl list" where
  "read_position lower lines body =
     (let header = take 2 lines in
      if length header < 2 then Inl IndexError
      else
        (let parts = split_on 61 (header ! 1) in
         if length parts < 2 then Inl IndexError
         else
           (let unit = lower (strip (parts ! 1));
                s = unit_scale unit
            in Inr (map (\<lambda>v. fl_mul (Fin (2 * s)) v) body))))"

section \<open>Normalisation\<close>

text \<open>
  A 2D array is the list of its rows.  \<open>normalize\<close> (here \<open>normalize_arr\<close>)
  returns the array and the warnings it issued.
\<close>

type_synonym frame = "fl list list"

definition normalize_arr :: "frame \<Rightarrow> fl \<Rightarrow> error + (frame \<times> string list)" where
  "normalize_arr data offset =
     (case amin (concat data) of
        Inl e \<Rightarrow> Inl e
      | Inr mn \<Rightarrow>
          (case amax (concat data) of
             Inl e \<Rightarrow> Inl e
           | Inr mx \<Rightarrow>
               (let shift = map (map (\<lambda>v. fl_sub v mn)) data;
                    scale = fl_sub mx mn
                in if fl_eq scale (Fin 0)
                   then Inr (map (map (\<lambda>v. fl_add (Fin 1) offset)) data,
                             [''Divide-by-zero in Normalization. Scaled to 1.''])
                   else Inr (map (map (\<lambda>v. fl_add (fl_div v scale) offset)) shift, []))))"

section \<open>The count check of the batch run\<close>

text \<open>
  The script compares \<open>np.size(files)\<close> and \<open>np.size(z)\<close> with \<open>is not\<close>, the
  identity of the two int objects.  CPython keeps one shared object for each int from
  \<open>-5\<close> to \<open>256\<close>; every other int a call returns is a new object.  An int object
  is identified by its cached value or by its allocation number.
\<close>

datatype int_obj = Cached int | Allocated nat

definition np_size :: "int \<Rightarrow> nat \<Rightarrow> int_obj \<times> nat" where
  "np_size n next_alloc =
     (if - 5 \<le> n \<and> n \<le> 256 then (Cached n, next_alloc)
      else (Allocated next_alloc, Suc next_alloc))"

definition count_check :: "int \<Rightarrow> int \<Rightarrow> error + unit" where
  "count_check n_files n_z =
     (let (a, h1) = np_size n_files 0;
          (b, h2) = np_size n_z h1
      in if a \<noteq> b then Inl (Stop ''# of images does not match positions - fix ASAP'')
         else Inr ())"

section \<open>Region of interest\<close>

type_synonym roi = "fl \<times> fl \<times> fl \<times> fl"

definition nrows :: "frame \<Rightarrow> nat" where
  "nrows data = length data"

definition ncols :: "frame \<Rightarrow> nat" where
  "ncols data = (case data of [] \<Rightarrow> 0 | r # _ \<Rightarrow> length r)"

text \<open>
  A Python slice \<open>xs[start:stop]\<close> with int bounds: a negative bound counts from the
  end, and both are then cut to the range of the list.
\<close>

definition slice_index :: "nat \<Rightarrow> int \<Rightarrow> nat" where
  "slice_index n i = (if i < 0 then nat (max (i + int n) 0) else min (nat i) n)"

definition py_slice :: "'a list \<Rightarrow> int \<Rightarrow> int \<Rightarrow> 'a list" where
  "py_slice xs start stop =
     (let a = slice_index (length xs) start; b = slice_index (length xs) stop
      in take (b - a) (drop a xs))"

text \<open>
  \<open>get_roi\<close> treats the two axes alike.  \<open>start_edge\<close> is what it does to
  \<open>left\<close> and \<open>width\<close> (and to \<open>bottom\<close> and \<open>height\<close>) first: the start is cut to
  \<open>n - 2\<close>, then a start at or below zero shrinks the extent and becomes 0, a NaN start
  becomes 0, and any other start is truncated to an int.  \<open>extent\<close> is what it then
  does to \<open>width\<close> (\<open>height\<close>).
\<close>

definition start_edge :: "fl \<Rightarrow> fl \<Rightarrow> nat \<Rightarrow> error + (int \<times> fl)" where
  "start_edge left width n =
     (let left = py_min left (Fin (real_of_int (int n - 2))) in
      if fl_le left (Fin 0) then Inr (0, fl_add width left)
      else if fl_isnan left then Inr (0, width)
      else (case np_int left of Inl e \<Rightarrow> Inl e | Inr l \<Rightarrow> Inr (l, width)))"

definition extent :: "int \<Rightarrow> fl \<Rightarrow> nat \<Rightarrow> error + int" where
  "extent left width n =
     (if fl_gt (fl_add (Fin (real_of_int left)) width) (Fin (real n)) then Inr (int n - left)
      else if fl_isnan width then Inr (int n)
      else np_int width)"

text \<open>The bounds \<open>(bottom, height, left, width)\<close> that \<open>get_roi\<close> slices with.\<close>

definition get_roi_bounds :: "nat \<Rightarrow> nat \<Rightarrow> roi \<Rightarrow> error + (int \<times> int \<times> int \<times> int)" where
  "get_roi_bounds h w r =
     (case r of (x0, rwidth, y0, rheight) \<Rightarrow>
        (let left = fl_sub x0 (fl_div rwidth (Fin 2));
             bottom = fl_sub y0 (fl_div rheight (Fin 2));
             width = rwidth;
             height = rheight
         in case start_edge left width w of Inl e \<Rightarrow> Inl e
            | Inr (left, width) \<Rightarrow>
         (case start_edge bottom height h of Inl e \<Rightarrow> Inl e
            | Inr (bottom, height) \<Rightarrow>
         (case extent left width w of Inl e \<Rightarrow> Inl e
            | Inr width \<Rightarrow>
         (case extent bottom height h of Inl e \<Rightarrow> Inl e
            | Inr height \<Rightarrow> Inr (bottom, height, left, width))))))"

definition get_roi :: "frame \<Rightarrow> roi \<Rightarrow> error + frame" where
  "get_roi data r =
     (case get_roi_bounds (nrows data) (ncols data) r of
        Inl e \<Rightarrow> Inl e
      | Inr (bottom, height, left, width) \<Rightarrow>
          Inr (map (\<lambda>row. py_slice row left (left + width))
                 (py_slice data bottom (bottom + height))))"

section \<open>Moments\<close>

text \<open>
  \<open>np.gradient\<close> of a 1D array with unit spacing: one-sided differences at the two
  ends, central differences inside; it raises ValueError on fewer than two elements.
\<close>

definition gradient :: "fl list \<Rightarrow> error + fl list" where
  "gradient f =
     (let n = length f in
      if n < 2 then Inl ValueError
      else Inr (map (\<lambda>i. if i = 0 then fl_sub (f ! 1) (f ! 0)
                         else if i = n - 1 then fl_sub (f ! (n - 1)) (f ! (n - 2))
                         else fl_div (fl_sub (f ! (i + 1)) (f ! (i - 1))) (Fin 2))
                  [0..<n]))"

definition arange :: "nat \<Rightarrow> real \<Rightarrow> fl list" where
  "arange n scale = map (\<lambda>j. fl_mul (Fin scale) (Fin (real j))) [0..<n]"

text \<open>
  \<open>grid_sum data gx gy f\<close> is \<open>np.sum(data * f * dx * dy)\<close>, where \<open>dx\<close> and \<open>dy\<close> are
  the meshgrids of \<open>gx\<close> and \<open>gy\<close> and \<open>f i j\<close> is the factor at row \<open>i\<close>, column \<open>j\<close>.
\<close>

definition grid_sum :: "frame \<Rightarrow> fl list \<Rightarrow> fl list \<Rightarrow> (nat \<Rightarrow> nat \<Rightarrow> fl \<Rightarrow> fl) \<Rightarrow> fl" where
  "grid_sum data gx gy f =
     np_sum (concat (map (\<lambda>i. map (\<lambda>j. fl_mul (fl_mul (f i j (data ! i ! j)) (gx ! j)) (gy ! i))
                                  [0..<length (data ! i)])
                         [0..<length data]))"

definition calculate_2D_moments :: "frame \<Rightarrow> real \<times> real \<Rightarrow> bool \<Rightarrow> error + fl list" where
  "calculate_2D_moments data axes_scale calc_2nd_moments =
     (let x = arange (ncols data) (fst axes_scale);
          y = arange (nrows data) (snd axes_scale)
      in case gradient x of Inl e \<Rightarrow> Inl e
         | Inr gx \<Rightarrow>
      (case gradient y of Inl e \<Rightarrow> Inl e
         | Inr gy \<Rightarrow>
      (let A = grid_sum data gx gy (\<lambda>i j v. v);
           avgx = fl_div (grid_sum data gx gy (\<lambda>i j v. fl_mul v (x ! j))) A;
           avgy = fl_div (grid_sum data gx gy (\<lambda>i j v. fl_mul v (y ! i))) A
       in if calc_2nd_moments then
            (let sig2x = fl_div (grid_sum data gx gy
                           (\<lambda>i j v. fl_mul v (let d = fl_sub (x ! j) avgx in fl_mul d d))) A;
                 sig2y = fl_div (grid_sum data gx gy
                           (\<lambda>i j v. fl_mul v (let d = fl_sub (y ! i) avgy in fl_mul d d))) A;
                 sig2xy = fl_div (grid_sum data gx gy
                           (\<lambda>i j v. fl_mul (fl_mul v (fl_sub (x ! j) avgx)) (fl_sub (y ! i) avgy))) A
             in Inr [avgx, avgy, sig2x, sig2y, sig2xy])
          else Inr [avgx, avgy])))"

text \<open>
  A requested centre \<open>c\<close> and extent \<open>e\<close> on one axis leave at least one index when
  the extent is NaN (the full axis), or when it is finite and still at least 1 after
  the part of the window below index 0 is cut off.
\<close>

definition requested_extent_ok :: "fl \<Rightarrow> fl \<Rightarrow> bool" where
  "requested_extent_ok c e =
     (case e of
        NaN \<Rightarrow> True
      | Fin ev \<Rightarrow> (case c of
                    Fin cv \<Rightarrow> 1 \<le> ev + min (cv - ev / 2) 0
                  | NaN \<Rightarrow> 1 \<le> ev
                  | _ \<Rightarrow> False)
      | _ \<Rightarrow> False)"


section \<open>Beam widths of one frame\<close>













section \<open>Fit of the propagation law\<close>

text \<open>\<open>np.argmin\<close> and \<open>np.argmax\<close>: the index of the first occurrence of the minimum
  (maximum), and indexing of an array.\<close>

fun first_index :: "'a \<Rightarrow> 'a list \<Rightarrow> nat" where
  "first_index v [] = 0"
| "first_index v (x # xs) = (if x = v then 0 else Suc (first_index v xs))"

definition argmin :: "fl list \<Rightarrow> error + nat" where
  "argmin xs = (case amin xs of Inl e \<Rightarrow> Inl e | Inr m \<Rightarrow> Inr (first_index m xs))"

definition argmax :: "fl list \<Rightarrow> error + nat" where
  "argmax xs = (case amax xs of Inl e \<Rightarrow> Inl e | Inr m \<Rightarrow> Inr (first_index m xs))"

definition item :: "'a list \<Rightarrow> nat \<Rightarrow> error + 'a" where
  "item xs i = (if i < length xs then Inr (xs ! i) else Inl IndexError)"

text \<open>The initial guess \<open>p0 = [ai, bi, ci]\<close> of \<open>fit_M2\<close>.\<close>

definition fit_M2_p0 :: "fl list \<Rightarrow> fl list \<Rightarrow> error + fl list" where
  "fit_M2_p0 dz z =
     (case amin dz of Inl e \<Rightarrow> Inl e | Inr di \<Rightarrow>
     (case argmin dz of Inl e \<Rightarrow> Inl e | Inr imin \<Rightarrow>
     (case item z imin of Inl e \<Rightarrow> Inl e | Inr zi \<Rightarrow>
     (case amax dz of Inl e \<Rightarrow> Inl e | Inr dm \<Rightarrow>
     (case argmax dz of Inl e \<Rightarrow> Inl e | Inr imax \<Rightarrow>
     (case item z imax of Inl e \<Rightarrow> Inl e | Inr zm \<Rightarrow>
        (let t = fl_arctan (fl_div (fl_sub dm di) (fl_sub zm zi));
             ci = fl_mul t t;
             bi = fl_mul (fl_mul (Fin (- 2)) zi) ci;
             ai = fl_add (fl_mul di di) (fl_mul ci (fl_mul zi zi))
         in Inr [ai, bi, ci])))))))"

text \<open>
  \<open>fit_M2\<close> with its two library steps as parameters.  \<open>curve_fit z dz p0\<close> stands for
  \<open>scipy.optimize.curve_fit\<close> with the model \<open>sqrt (a + b z + c z\<^sup>2)\<close>, the data \<open>z\<close>,
  \<open>dz\<close>, the initial guess \<open>p0\<close> and the bounds \<open>a \<ge> 0\<close>, \<open>c \<ge> 0\<close>; it returns the fitted
  coefficients with their covariance.  \<open>propagate fit wl\<close> stands for what follows the
  fit: \<open>uncertainties.correlated_values\<close> and the arithmetic of that package which
  gives the nominal values and the standard deviations of \<open>z0\<close>, \<open>d0\<close>, \<open>M2\<close>, \<open>theta\<close>
  and \<open>zR\<close>.
\<close>

definition fit_M2 ::
  "(fl list \<Rightarrow> fl list \<Rightarrow> fl list \<Rightarrow> error + 'fit) \<Rightarrow> ('fit \<Rightarrow> real \<Rightarrow> error + 'res)
     \<Rightarrow> fl list \<Rightarrow> fl list \<Rightarrow> real \<Rightarrow> error + 'res" where
  "fit_M2 curve_fit propagate dz z wl =
     (case fit_M2_p0 dz z of Inl e \<Rightarrow> Inl e
      | Inr p0 \<Rightarrow>
          (case curve_fit z dz p0 of Inl e \<Rightarrow> Inl e
           | Inr fit \<Rightarrow> propagate fit wl))"


section \<open>An example frame\<close>







section \<open>Position file: unit conversion\<close>

lemma split_on_no_sep: "sep \<notin> set s \<Longrightarrow> split_on sep s = [s]"
  by (induction s) auto

lemma split_on_first: "sep \<notin> set k \<Longrightarrow> split_on sep (k @ sep # r) = k # split_on sep r"
  by (induction k) auto

lemma unit_key: "61 \<notin> set (str ''unit '')" "61 \<notin> set (str '' um'' @ [160, 10])"
  by (simp_all add: str_def)

lemma strip_lower_um: "ascii_lower (strip (str '' um'' @ [160, 10])) = str ''um''"
  by (simp add: str_def strip_def is_space_def ascii_lower_def)

lemma inch: "str ''inch'' \<notin> {str ''m'', str ''mm'', str ''um'', str ''nm'', str ''pm''}"
  by (simp add: str_def)

text \<open>
  C7.  \<open>read_position\<close> takes the unit from the text after \<open>=\<close> on the second header
  line, stripped and lower-cased, scales by 1, 1e-3, 1e-6, 1e-9 or 1e-12 for m, mm, um,
  nm and pm and by 1e-3 for any other unit, and multiplies every body value by twice
  that scale.  With the unit \<open>um\<close> (here followed by a no-break space and the newline)
  and the body 1, 2, 3 it returns 2e-6, 4e-6, 6e-6 (the witness).
\<close>

theorem read_position_units:
  assumes "61 \<notin> set key" and "61 \<notin> set u"
  shows "read_position lower (h1 # (key @ [61] @ u) # rest) body
           = Inr (map (\<lambda>v. fl_mul (Fin (2 * unit_scale (lower (strip u)))) v) body)
         \<and> unit_scale (str ''m'') = 1 \<and> unit_scale (str ''mm'') = 1 / 10 ^ 3
         \<and> unit_scale (str ''um'') = 1 / 10 ^ 6 \<and> unit_scale (str ''nm'') = 1 / 10 ^ 9
         \<and> unit_scale (str ''pm'') = 1 / 10 ^ 12
         \<and> (w \<notin> {str ''m'', str ''mm'', str ''um'', str ''nm'', str ''pm''}
              \<longrightarrow> unit_scale w = 1 / 10 ^ 3)"
proof -
  have "split_on 61 (key @ [61] @ u) = [key, u]"
    using assms by (simp add: split_on_first split_on_no_sep)
  then have "read_position lower (h1 # (key @ [61] @ u) # rest) body
           = Inr (map (\<lambda>v. fl_mul (Fin (2 * unit_scale (lower (strip u)))) v) body)"
    by (simp add: read_position_def Let_def)
  moreover have "unit_scale (str ''m'') = 1" "unit_scale (str ''mm'') = 1 / 10 ^ 3"
    "unit_scale (str ''um'') = 1 / 10 ^ 6" "unit_scale (str ''nm'') = 1 / 10 ^ 9"
    "unit_scale (str ''pm'') = 1 / 10 ^ 12"
    by (simp_all add: unit_scale_def str_def)
  moreover have "w \<notin> {str ''m'', str ''mm'', str ''um'', str ''nm'', str ''pm''}
              \<longrightarrow> unit_scale w = 1 / 10 ^ 3"
    by (simp add: unit_scale_def)
  ultimately show ?thesis by blast
qed

theorem read_position_units_witness:
  "read_position ascii_lower
       [str ''z positions'', str ''unit '' @ [61] @ (str '' um'' @ [160, 10]), str ''1'', str ''2'', str ''3'']
       [Fin 1, Fin 2, Fin 3]
     = Inr [Fin (2 / 10 ^ 6), Fin (4 / 10 ^ 6), Fin (6 / 10 ^ 6)]
   \<and> unit_scale (str ''inch'') = 1 / 10 ^ 3"
proof -
  note t = read_position_units [where lower = ascii_lower and key = "str ''unit ''"
      and u = "str '' um'' @ [160, 10]" and w = "str ''inch''"
      and ?h1.0 = "str ''z positions''" and rest = "[str ''1'', str ''2'', str ''3'']"
      and body = "[Fin 1, Fin 2, Fin 3]", OF unit_key]
  have a: "read_position ascii_lower
       [str ''z positions'', str ''unit '' @ [61] @ (str '' um'' @ [160, 10]), str ''1'', str ''2'', str ''3'']
       [Fin 1, Fin 2, Fin 3]
     = Inr (map (\<lambda>v. fl_mul (Fin (2 * unit_scale (str ''um''))) v) [Fin 1, Fin 2, Fin 3])"
    using t unfolding strip_lower_um by blast
  have b: "unit_scale (str ''um'') = 1 / 10 ^ 6" using t by blast
  have c: "unit_scale (str ''inch'') = 1 / 10 ^ 3" using t inch by blast
  show ?thesis unfolding a b using c by simp
qed

section \<open>Count check\<close>

text \<open>
  C8.  The count check lets the run proceed exactly when the two counts are equal and
  lie between -5 and 256; two equal counts above 256 (here 257 images and 257
  positions) stop the run with the mismatch message.
\<close>

theorem count_check_identity:
  "(count_check n m = Inr () \<longleftrightarrow> n = m \<and> - 5 \<le> n \<and> n \<le> 256)
   \<and> count_check 257 257 = Inl (Stop ''# of images does not match positions - fix ASAP'')"
  by (auto simp add: count_check_def np_size_def Let_def split: if_splits)

section \<open>Normalising a constant array\<close>

text \<open>
  C10 as stated fails: an array whose maximum and minimum are both infinite gives the
  scale \<open>inf - inf = NaN\<close>, which is not 0, and \<open>normalize\<close> returns NaN entries without a
  warning; and with a NaN offset the all-ones branch returns NaN entries.
\<close>

theorem normalize_not_finite_counterexample:
  "normalize_arr [[PInf, PInf], [PInf, PInf]] (Fin 0) = Inr ([[NaN, NaN], [NaN, NaN]], [])
   \<and> normalize_arr [[Fin 7, Fin 7], [Fin 7, Fin 7]] NaN =
       Inr ([[NaN, NaN], [NaN, NaN]], [''Divide-by-zero in Normalization. Scaled to 1.''])"
  by (simp add: normalize_arr_def fl_min2_def fl_max2_def fl_sub_def fl_eq_def)

text \<open>
  C10, amended.  On a non-empty array whose maximum and minimum are the same finite
  value, and with any offset, \<open>normalize\<close> does not raise: it issues the
  divide-by-zero warning and returns an array of the same shape whose every entry is
  1 plus the offset; no entry is NaN unless the offset is NaN.
\<close>

theorem normalize_constant:
  assumes "amin (concat data) = Inr (Fin m)" and "amax (concat data) = Inr (Fin m)"
  shows "normalize_arr data offset =
           Inr (map (map (\<lambda>v. fl_add (Fin 1) offset)) data,
                [''Divide-by-zero in Normalization. Scaled to 1.''])
         \<and> (\<not> fl_isnan offset \<longrightarrow> \<not> fl_isnan (fl_add (Fin 1) offset))"
proof -
  have "\<not> fl_isnan offset \<longrightarrow> \<not> fl_isnan (fl_add (Fin 1) offset)"
    by (cases offset) simp_all
  then show ?thesis using assms by (simp add: normalize_arr_def fl_sub_def fl_eq_def)
qed

theorem normalize_constant_witness:
  "normalize_arr [[Fin 7, Fin 7], [Fin 7, Fin 7]] (Fin 0) =
     Inr ([[Fin 1, Fin 1], [Fin 1, Fin 1]],
          [''Divide-by-zero in Normalization. Scaled to 1.''])
   \<and> \<not> fl_isnan (fl_add (Fin 1) (Fin 0))"
  using normalize_constant [of "[[Fin 7, Fin 7], [Fin 7, Fin 7]]" 7 "Fin 0"]
  by (simp add: fl_min2_def fl_max2_def)

section \<open>Region of interest: bounds of the window\<close>

lemma trunc_ge_1: "1 \<le> v \<Longrightarrow> 1 \<le> trunc v"
  by (simp add: trunc_def le_floor_iff)

lemma trunc_le: "0 \<le> v \<Longrightarrow> real_of_int (trunc v) \<le> v"
  by (simp add: trunc_def)

lemma trunc_nonneg: "0 \<le> v \<Longrightarrow> 0 \<le> trunc v"
  by (simp add: trunc_def)

lemma axis_window:
  assumes n: "2 \<le> n" and ok: "requested_extent_ok c e"
  shows "\<exists>l e' k. start_edge (fl_sub c (fl_div e (Fin 2))) e n = Inr (l, e')
           \<and> extent l e' n = Inr k \<and> 0 \<le> l \<and> l \<le> int n - 2 \<and> 1 \<le> k \<and> l + k \<le> int n"
proof (cases e)
  case NaN
  then show ?thesis using n
    by (cases c) (simp_all add: fl_sub_def start_edge_def py_min_def fl_le_def fl_eq_def extent_def fl_gt_def)
next
  case PInf
  then show ?thesis using ok by (simp add: requested_extent_ok_def)
next
  case NInf
  then show ?thesis using ok by (simp add: requested_extent_ok_def)
next
  case (Fin ev)
  show ?thesis
  proof (cases c)
    case NaN
    then have ev: "1 \<le> ev" using ok Fin by (simp add: requested_extent_ok_def)
    have st: "start_edge (fl_sub c (fl_div e (Fin 2))) e n = Inr (0, Fin ev)"
      using NaN Fin by (simp add: fl_sub_def start_edge_def py_min_def fl_le_def fl_eq_def)
    show ?thesis
    proof (cases "real n < ev")
      case True
      then show ?thesis using st n by (simp add: extent_def fl_gt_def)
    next
      case False
      then have "extent 0 (Fin ev) n = Inr (trunc ev)" by (simp add: extent_def fl_gt_def)
      moreover have "1 \<le> trunc ev" using ev by (rule trunc_ge_1)
      moreover have "real_of_int (trunc ev) \<le> real n" using trunc_le [of ev] ev False by linarith
      ultimately show ?thesis using st n by simp
    qed
  next
    case PInf
    then show ?thesis using ok Fin by (simp add: requested_extent_ok_def)
  next
    case NInf
    then show ?thesis using ok Fin by (simp add: requested_extent_ok_def)
  next
    case (Fin cv)
    note c = this
    define left0 where "left0 = cv - ev / 2"
    define left1 where "left1 = (if real_of_int (int n - 2) < left0 then real_of_int (int n - 2) else left0)"
    have ok': "1 \<le> ev + min left0 0" using ok c \<open>e = Fin ev\<close> by (simp add: requested_extent_ok_def left0_def)
    have pm: "py_min (fl_sub c (fl_div e (Fin 2))) (Fin (real_of_int (int n - 2))) = Fin left1"
      using c \<open>e = Fin ev\<close> by (simp add: fl_sub_def py_min_def left0_def left1_def)
    show ?thesis
    proof (cases "left1 \<le> 0")
      case True
      then have st: "start_edge (fl_sub c (fl_div e (Fin 2))) e n = Inr (0, Fin (ev + left1))"
        using pm \<open>e = Fin ev\<close> by (auto simp add: start_edge_def Let_def fl_le_def fl_eq_def)
      have "left1 = min left0 0" using True n by (auto simp add: left1_def min_def split: if_splits)
      then have e1: "1 \<le> ev + left1" using ok' by simp
      show ?thesis
      proof (cases "real n < ev + left1")
        case True
        then show ?thesis using st n by (simp add: extent_def fl_gt_def)
      next
        case False
        then have "extent 0 (Fin (ev + left1)) n = Inr (trunc (ev + left1))" by (simp add: extent_def fl_gt_def)
        moreover have "1 \<le> trunc (ev + left1)" using e1 by (rule trunc_ge_1)
        moreover have "real_of_int (trunc (ev + left1)) \<le> real n"
          using trunc_le [of "ev + left1"] e1 False by linarith
        ultimately show ?thesis using st n by simp
      qed
    next
      case False
      then have pos: "0 < left1" by simp
      have st: "start_edge (fl_sub c (fl_div e (Fin 2))) e n = Inr (trunc left1, Fin ev)"
        using pm False \<open>e = Fin ev\<close> by (auto simp add: start_edge_def Let_def fl_le_def fl_eq_def)
      have l0: "0 \<le> trunc left1" using pos by (simp add: trunc_nonneg)
      have "left1 \<le> real_of_int (int n - 2)" by (simp add: left1_def)
      then have l1: "trunc left1 \<le> int n - 2" using pos by (simp add: trunc_def floor_le_iff)
      have "0 < left0" using pos by (auto simp add: left1_def split: if_splits)
      then have ev: "1 \<le> ev" using ok' by simp
      show ?thesis
      proof (cases "real n < real_of_int (trunc left1) + ev")
        case True
        then show ?thesis using st n l0 l1 by (simp add: extent_def fl_gt_def)
      next
        case False
        then have "extent (trunc left1) (Fin ev) n = Inr (trunc ev)" by (simp add: extent_def fl_gt_def)
        moreover have "1 \<le> trunc ev" using ev by (rule trunc_ge_1)
        moreover have "real_of_int (trunc left1) + real_of_int (trunc ev) \<le> real n"
          using trunc_le [of ev] ev False by linarith
        then have "trunc left1 + trunc ev \<le> int n" by linarith
        ultimately show ?thesis using st n l0 l1 by simp
      qed
    qed
  qed
qed

lemma py_slice_window:
  assumes "0 \<le> l" and "0 \<le> k" and "l + k \<le> int (length xs)"
  shows "py_slice xs l (l + k) = take (nat k) (drop (nat l) xs)"
proof -
  have a: "slice_index (length xs) l = nat l" using assms by (simp add: slice_index_def)
  have b: "slice_index (length xs) (l + k) = nat (l + k)" using assms by (simp add: slice_index_def)
  have "nat (l + k) - nat l = nat k" using assms by linarith
  then show ?thesis by (simp add: py_slice_def a b)
qed

lemma ncols_rect: "data \<noteq> [] \<Longrightarrow> \<forall>row\<in>set data. length row = w \<Longrightarrow> ncols data = w"
  by (cases data) (simp_all add: ncols_def)

lemma trunc_small: "trunc 0 = 0" "trunc (- 1) = - 1"
  using ceiling_of_int [of "- 1", where ?'a = real] by (simp_all add: trunc_def)

text \<open>
  C2 as stated fails: a request of width and height 0 gives an empty array, and a
  request of width and height 0 centred at -1 makes \<open>get_roi\<close> slice with the negative
  stop index -1 on both axes.
\<close>

theorem get_roi_empty_counterexample:
  "get_roi [[Fin 1, Fin 2], [Fin 3, Fin 4]] (Fin 0, Fin 0, Fin 0, Fin 0) = Inr []
   \<and> get_roi_bounds 3 3 (Fin (- 1), Fin 0, Fin (- 1), Fin 0) = Inr (0, - 1, 0, - 1)"
  by (simp add: get_roi_def get_roi_bounds_def start_edge_def extent_def nrows_def ncols_def py_min_def
    fl_sub_def fl_le_def fl_eq_def fl_gt_def trunc_small py_slice_def slice_index_def)

lemma get_roi_bounds_cut:
  "get_roi_bounds 3 3 (Fin (- 1), Fin 5, NaN, Fin 2) = Inr (0, 2, 0, 1)"
  by (simp add: get_roi_bounds_def start_edge_def extent_def py_min_def
    fl_sub_def fl_le_def fl_eq_def fl_gt_def trunc_def)

text \<open>
  C2, amended.  On a frame with at least 2 rows and 2 columns, for every requested ROI
  in which each extent is NaN, or is finite (with a finite or NaN centre) and at least
  1 after the part of the window below index 0 is cut off, the index bounds that
  \<open>get_roi\<close> slices with are not negative and lie within the bounds of the frame
  (\<open>0 \<le> bottom\<close>, \<open>bottom + height \<le> h\<close>, \<open>0 \<le> left\<close>, \<open>left + width \<le> w\<close>), and the
  sub-array it returns is that window, with at least 1 row and 1 column.
\<close>

theorem get_roi_in_frame:
  assumes rect: "\<forall>row\<in>set data. length row = w" and h: "length data = h"
    and w2: "2 \<le> w" and h2: "2 \<le> h"
    and okx: "requested_extent_ok x0 rwidth" and oky: "requested_extent_ok y0 rheight"
  shows "\<exists>bottom height left width.
           get_roi_bounds h w (x0, rwidth, y0, rheight) = Inr (bottom, height, left, width)
           \<and> 0 \<le> bottom \<and> 1 \<le> height \<and> bottom + height \<le> int h
           \<and> 0 \<le> left \<and> 1 \<le> width \<and> left + width \<le> int w
           \<and> get_roi data (x0, rwidth, y0, rheight)
               = Inr (map (\<lambda>row. take (nat width) (drop (nat left) row))
                        (take (nat height) (drop (nat bottom) data)))"
proof -
  have ne: "data \<noteq> []" using h h2 by auto
  have nc: "ncols data = w" using ne rect by (rule ncols_rect)
  obtain l e' k where x: "start_edge (fl_sub x0 (fl_div rwidth (Fin 2))) rwidth w = Inr (l, e')"
      "extent l e' w = Inr k" "0 \<le> l" "1 \<le> k" "l + k \<le> int w"
    using axis_window [OF w2 okx] by blast
  obtain b f' m where y: "start_edge (fl_sub y0 (fl_div rheight (Fin 2))) rheight h = Inr (b, f')"
      "extent b f' h = Inr m" "0 \<le> b" "1 \<le> m" "b + m \<le> int h"
    using axis_window [OF h2 oky] by blast
  have bounds: "get_roi_bounds h w (x0, rwidth, y0, rheight) = Inr (b, m, l, k)"
    using x y by (simp add: get_roi_bounds_def)
  have rows: "py_slice data b (b + m) = take (nat m) (drop (nat b) data)"
    using y h by (intro py_slice_window) auto
  have cols: "\<And>row. row \<in> set (take (nat m) (drop (nat b) data))
                \<Longrightarrow> py_slice row l (l + k) = take (nat k) (drop (nat l) row)"
  proof -
    fix row assume "row \<in> set (take (nat m) (drop (nat b) data))"
    then have "row \<in> set data" by (meson in_set_dropD in_set_takeD)
    then have "length row = w" using rect by simp
    then show "py_slice row l (l + k) = take (nat k) (drop (nat l) row)"
      using x by (intro py_slice_window) auto
  qed
  have "get_roi data (x0, rwidth, y0, rheight)
          = Inr (map (\<lambda>row. take (nat k) (drop (nat l) row)) (take (nat m) (drop (nat b) data)))"
    using bounds rows cols by (simp add: get_roi_def nrows_def h nc)
  then show ?thesis using bounds x(3-5) y(3-5) by blast
qed

theorem get_roi_in_frame_witness:
  "get_roi_bounds 3 3 (Fin (- 1), Fin 5, NaN, Fin 2) = Inr (0, 2, 0, 1)
   \<and> get_roi [[Fin 1, Fin 2, Fin 3], [Fin 4, Fin 5, Fin 6], [Fin 7, Fin 8, Fin 9]]
        (Fin (- 1), Fin 5, NaN, Fin 2) = Inr [[Fin 1], [Fin 4]]"
proof -
  let ?D = "[[Fin 1, Fin 2, Fin 3], [Fin 4, Fin 5, Fin 6], [Fin 7, Fin 8, Fin 9]]"
  obtain bottom height left width where
      b: "get_roi_bounds 3 3 (Fin (- 1), Fin 5, NaN, Fin 2) = Inr (bottom, height, left, width)"
      and g: "get_roi ?D (Fin (- 1), Fin 5, NaN, Fin 2)
               = Inr (map (\<lambda>row. take (nat width) (drop (nat left) row))
                        (take (nat height) (drop (nat bottom) ?D)))"
    using get_roi_in_frame [where data = ?D and w = 3 and h = 3
        and ?x0.0 = "Fin (- 1)" and rwidth = "Fin 5" and ?y0.0 = NaN and rheight = "Fin 2"]
    by (auto simp add: requested_extent_ok_def)
  have "bottom = 0 \<and> height = 2 \<and> left = 0 \<and> width = 1"
    using b by (simp add: get_roi_bounds_cut)
  then show ?thesis using g by (simp add: get_roi_bounds_cut)
qed






section \<open>Moments of a frame without intensity\<close>

lemma gradient_arange:
  assumes "2 \<le> n"
  shows "gradient (arange n s) = Inr (replicate n (Fin s))"
proof -
  define f where "f = arange n s"
  define g where "g = (\<lambda>i. if i = 0 then fl_sub (f ! 1) (f ! 0)
                 else if i = n - 1 then fl_sub (f ! (n - 1)) (f ! (n - 2))
                 else fl_div (fl_sub (f ! (i + 1)) (f ! (i - 1))) (Fin 2))"
  have len: "length f = n" by (simp add: f_def arange_def)
  have nth: "\<And>i. i < n \<Longrightarrow> f ! i = Fin (s * real i)" by (simp add: f_def arange_def)
  have g: "g i = Fin s" if i: "i < n" for i
  proof -
    consider "i = 0" | "i \<noteq> 0" "i = n - 1" | "i \<noteq> 0" "i \<noteq> n - 1" by blast
    then show ?thesis
    proof cases
      case 1
      then show ?thesis using assms nth [of 0] nth [of 1] by (simp add: g_def fl_sub_def)
    next
      case 2
      have "real (n - 1) - real (n - 2) = 1" using assms by (simp add: of_nat_diff)
      then have "s * real (n - 1) - s * real (n - 2) = s" by (metis mult.right_neutral right_diff_distrib)
      then show ?thesis using 2 assms nth [of "n - 1"] nth [of "n - 2"] by (simp add: g_def fl_sub_def)
    next
      case 3
      then have "i + 1 < n" using i by linarith
      moreover have "real (i + 1) - real (i - 1) = 2" using 3 by (simp add: of_nat_diff)
      then have "s * real (i + 1) - s * real (i - 1) = s * 2" by (metis right_diff_distrib)
      ultimately show ?thesis using 3 i nth [of "i + 1"] nth [of "i - 1"] by (simp add: g_def fl_sub_def)
    qed
  qed
  have "map g [0..<n] = replicate n (Fin s)"
    by (rule nth_equalityI) (simp_all add: g)
  moreover have "gradient f = Inr (map g [0..<n])"
    using assms unfolding gradient_def Let_def len g_def by simp
  ultimately show ?thesis by (simp add: f_def)
qed

lemma gradient_length: "gradient f = Inr g \<Longrightarrow> 2 \<le> length f"
  by (auto simp add: gradient_def Let_def split: if_splits)

lemma foldl_fl_add_NaN: "foldl fl_add NaN xs = NaN"
  by (induction xs) simp_all

lemma np_sum_NaN: "NaN \<in> set xs \<Longrightarrow> foldl fl_add a xs = NaN"
proof (induction xs arbitrary: a)
  case Nil
  then show ?case by simp
next
  case (Cons x xs)
  show ?case
  proof (cases "x = NaN")
    case True
    then have "fl_add a x = NaN" by (cases a) simp_all
    then show ?thesis by (simp add: foldl_fl_add_NaN)
  next
    case False
    then show ?thesis using Cons by simp
  qed
qed

lemma foldl_fl_add_zero: "\<forall>x\<in>set xs. x = Fin 0 \<Longrightarrow> foldl fl_add (Fin a) xs = Fin a"
  by (induction xs) simp_all

lemma foldl_fl_add_nonneg:
  "\<forall>x\<in>set xs. \<exists>r\<ge>0. x = Fin r \<Longrightarrow>
     \<exists>t\<ge>0. foldl fl_add (Fin a) xs = Fin (a + t) \<and> (t = 0 \<longrightarrow> (\<forall>x\<in>set xs. x = Fin 0))"
proof (induction xs arbitrary: a)
  case Nil
  then show ?case by simp
next
  case (Cons x xs)
  then obtain r where r: "0 \<le> r" "x = Fin r" by auto
  from Cons obtain t where t: "0 \<le> t" "foldl fl_add (Fin (a + r)) xs = Fin (a + r + t)"
      "t = 0 \<longrightarrow> (\<forall>x\<in>set xs. x = Fin 0)" by (metis list.set_intros(2))
  have "foldl fl_add (Fin a) (x # xs) = Fin (a + (r + t))" using r t by (simp add: add.assoc)
  moreover have "0 \<le> r + t" using r t by simp
  moreover have "r + t = 0 \<longrightarrow> (\<forall>y\<in>set (x # xs). y = Fin 0)" using r t by auto
  ultimately show ?case by blast
qed

lemma np_sum_nonneg_zero:
  assumes "\<forall>x\<in>set xs. \<exists>r\<ge>0. x = Fin r" and "np_sum xs = Fin 0"
  shows "\<forall>x\<in>set xs. x = Fin 0"
  using foldl_fl_add_nonneg [OF assms(1), of 0] assms(2) by (auto simp add: np_sum_def)

lemma cells_set:
  "set (concat (map (\<lambda>i. map (c i) [0..<length (data ! i)]) [0..<length data]))
     = {c i j | i j. i < length data \<and> j < length (data ! i)}"
  by auto blast

lemma grid_sum_zero:
  assumes "\<And>i j. i < length data \<Longrightarrow> j < length (data ! i)
             \<Longrightarrow> fl_mul (fl_mul (f i j (data ! i ! j)) (gx ! j)) (gy ! i) = Fin 0"
  shows "grid_sum data gx gy f = Fin 0"
  unfolding grid_sum_def np_sum_def
  by (rule foldl_fl_add_zero) (use assms in \<open>auto simp add: cells_set\<close>)

lemma grid_sum_NaN:
  assumes "i < length data" and "j < length (data ! i)"
    and "fl_mul (fl_mul (f i j (data ! i ! j)) (gx ! j)) (gy ! i) = NaN"
  shows "grid_sum data gx gy f = NaN"
  unfolding grid_sum_def np_sum_def
  by (rule np_sum_NaN) (use assms in \<open>force simp add: cells_set\<close>)

lemma grid_sum_nonneg_zero:
  assumes "\<And>i j. i < length data \<Longrightarrow> j < length (data ! i)
             \<Longrightarrow> \<exists>r\<ge>0. fl_mul (fl_mul (f i j (data ! i ! j)) (gx ! j)) (gy ! i) = Fin r"
    and "grid_sum data gx gy f = Fin 0"
    and "i < length data" and "j < length (data ! i)"
  shows "fl_mul (fl_mul (f i j (data ! i ! j)) (gx ! j)) (gy ! i) = Fin 0"
proof -
  let ?cells = "concat (map (\<lambda>i. map (\<lambda>j. fl_mul (fl_mul (f i j (data ! i ! j)) (gx ! j)) (gy ! i))
                                  [0..<length (data ! i)]) [0..<length data])"
  have "\<forall>x\<in>set ?cells. \<exists>r\<ge>0. x = Fin r" using assms(1) by (auto simp add: cells_set)
  moreover have "np_sum ?cells = Fin 0" using assms(2) by (simp add: grid_sum_def)
  ultimately have "\<forall>x\<in>set ?cells. x = Fin 0" by (rule np_sum_nonneg_zero)
  moreover have "fl_mul (fl_mul (f i j (data ! i ! j)) (gx ! j)) (gy ! i) \<in> set ?cells"
    using assms(3,4) by (force simp add: cells_set)
  ultimately show ?thesis by blast
qed


lemma fl_mul_NaN [simp]: "fl_mul a NaN = NaN" "fl_mul NaN a = NaN"
  by (cases a; simp)+

lemma fl_sub_NaN [simp]: "fl_sub a NaN = NaN" "fl_sub NaN a = NaN"
  by (cases a; simp add: fl_sub_def)+

lemma fl_div_NaN [simp]: "fl_div NaN a = NaN"
  by simp

text \<open>
  C1 as stated fails: on an all-zero frame \<open>calculate_2D_moments\<close> does not fail, it
  returns five NaN.
\<close>

theorem moments_zero_frame_counterexample:
  "calculate_2D_moments [[Fin 0, Fin 0, Fin 0], [Fin 0, Fin 0, Fin 0]] (1, 1) True
     = Inr [NaN, NaN, NaN, NaN, NaN]"
  by (simp add: calculate_2D_moments_def arange_def gradient_def nrows_def ncols_def grid_sum_def
      np_sum_def fl_sub_def Let_def)

text \<open>
  C1, amended.  For every rectangular array of finite non-negative values and
  non-negative axis scales on which the gradients exist (at least 2 rows and 2
  columns) and the total weighted intensity \<open>A\<close> is 0, \<open>calculate_2D_moments\<close> does
  not fail: it divides by \<open>A\<close> and returns a moment set whose entries are all NaN
  (five with the second moments, two without).
\<close>

theorem moments_zero_intensity:
  assumes rect: "\<forall>row\<in>set data. length row = ncols data \<and> (\<forall>v\<in>set row. \<exists>r\<ge>0. v = Fin r)"
    and sx: "0 \<le> sx" and sy: "0 \<le> sy"
    and gx: "gradient (arange (ncols data) sx) = Inr gx"
    and gy: "gradient (arange (nrows data) sy) = Inr gy"
    and A: "grid_sum data gx gy (\<lambda>i j v. v) = Fin 0"
  shows "calculate_2D_moments data (sx, sy) True = Inr [NaN, NaN, NaN, NaN, NaN]
         \<and> calculate_2D_moments data (sx, sy) False = Inr [NaN, NaN]"
proof -
  define w where "w = ncols data"
  define h where "h = nrows data"
  define x where "x = arange w sx"
  define y where "y = arange h sy"
  have w2: "2 \<le> w" using gradient_length [OF gx] by (simp add: arange_def w_def)
  have h2: "2 \<le> h" using gradient_length [OF gy] by (simp add: arange_def h_def)
  have gx': "gx = replicate w (Fin sx)" using gx gradient_arange [OF w2, of sx] by (simp add: w_def)
  have gy': "gy = replicate h (Fin sy)" using gy gradient_arange [OF h2, of sy] by (simp add: h_def)
  have hlen: "length data = h" by (simp add: h_def nrows_def)
  have row: "length (data ! i) = w" if "i < h" for i
    using rect that hlen by (simp add: w_def)
  have cell: "\<exists>r\<ge>0. data ! i ! j = Fin r" if "i < h" "j < w" for i j
  proof -
    have "data ! i \<in> set data" using that hlen by simp
    moreover have "data ! i ! j \<in> set (data ! i)" using that row by simp
    ultimately show ?thesis using rect by blast
  qed
  have xj: "x ! j = Fin (sx * real j)" if "j < w" for j using that by (simp add: x_def arange_def)
  have yi: "y ! i = Fin (sy * real i)" if "i < h" for i using that by (simp add: y_def arange_def)
  have zero: "\<exists>r. data ! i ! j = Fin r \<and> r * sx * sy = 0" if i: "i < h" and j: "j < w" for i j
  proof -
    obtain r where r: "0 \<le> r" "data ! i ! j = Fin r" using cell [OF i j] by blast
    have "fl_mul (fl_mul ((\<lambda>i j v. v) i j (data ! i ! j)) (gx ! j)) (gy ! i) = Fin 0"
    proof (rule grid_sum_nonneg_zero [where f = "\<lambda>i j v. v", OF _ A])
      fix i' j' assume a: "i' < length data" "j' < length (data ! i')"
      then have b: "i' < h" "j' < w" using hlen row by auto
      obtain r' where r': "0 \<le> r'" "data ! i' ! j' = Fin r'" using cell [OF b] by blast
      have "0 \<le> r' * sx * sy" using r' sx sy by simp
      then show "\<exists>r\<ge>0. fl_mul (fl_mul (data ! i' ! j') (gx ! j')) (gy ! i') = Fin r"
        using r' b by (simp add: gx' gy')
    next
      show "i < length data" using i hlen by simp
      show "j < length (data ! i)" using i j row by simp
    qed
    then have "r * sx * sy = 0" using r i j by (simp add: gx' gy')
    then show ?thesis using r by blast
  qed
  have numx: "grid_sum data gx gy (\<lambda>i j v. fl_mul v (x ! j)) = Fin 0"
  proof (rule grid_sum_zero)
    fix i j assume a: "i < length data" "j < length (data ! i)"
    then have b: "i < h" "j < w" using hlen row by auto
    obtain r where r: "data ! i ! j = Fin r" "r * sx * sy = 0" using zero [OF b] by blast
    have "r * (sx * real j) * sx * sy = (r * sx * sy) * (sx * real j)" by simp
    then have "r * (sx * real j) * sx * sy = 0" using r by simp
    then show "fl_mul (fl_mul (fl_mul (data ! i ! j) (x ! j)) (gx ! j)) (gy ! i) = Fin 0"
      using r b by (simp add: gx' gy' xj)
  qed
  have numy: "grid_sum data gx gy (\<lambda>i j v. fl_mul v (y ! i)) = Fin 0"
  proof (rule grid_sum_zero)
    fix i j assume a: "i < length data" "j < length (data ! i)"
    then have b: "i < h" "j < w" using hlen row by auto
    obtain r where r: "data ! i ! j = Fin r" "r * sx * sy = 0" using zero [OF b] by blast
    have "r * (sy * real i) * sx * sy = (r * sx * sy) * (sy * real i)" by simp
    then have "r * (sy * real i) * sx * sy = 0" using r by simp
    then show "fl_mul (fl_mul (fl_mul (data ! i ! j) (y ! i)) (gx ! j)) (gy ! i) = Fin 0"
      using r b by (simp add: gx' gy' yi)
  qed
  have i0: "0 < length data" "0 < length (data ! 0)" using hlen h2 row [of 0] w2 by auto
  have s2x: "grid_sum data gx gy (\<lambda>i j v. fl_mul v (let d = fl_sub (x ! j) NaN in fl_mul d d)) = NaN"
    by (rule grid_sum_NaN [OF i0]) simp
  have s2y: "grid_sum data gx gy (\<lambda>i j v. fl_mul v (let d = fl_sub (y ! i) NaN in fl_mul d d)) = NaN"
    by (rule grid_sum_NaN [OF i0]) simp
  have s2xy: "grid_sum data gx gy
        (\<lambda>i j v. fl_mul (fl_mul v (fl_sub (x ! j) NaN)) (fl_sub (y ! i) NaN)) = NaN"
    by (rule grid_sum_NaN [OF i0]) simp
  show ?thesis
    using gx gy A numx numy s2x s2y s2xy
    unfolding calculate_2D_moments_def Let_def fst_conv snd_conv x_def y_def w_def h_def
    by simp
qed

lemma gradient_two: "gradient (arange 2 1) = Inr [Fin 1, Fin 1]"
  using gradient_arange [of 2 1] by (simp add: numeral_2_eq_2)

theorem moments_zero_intensity_witness:
  "calculate_2D_moments [[Fin 0, Fin 0], [Fin 0, Fin 0]] (1, 1) True = Inr [NaN, NaN, NaN, NaN, NaN]
   \<and> calculate_2D_moments [[Fin 0, Fin 0], [Fin 0, Fin 0]] (1, 1) False = Inr [NaN, NaN]"
proof -
  let ?D = "[[Fin 0, Fin 0], [Fin 0, Fin 0]]"
  have rect: "\<forall>row\<in>set ?D. length row = ncols ?D \<and> (\<forall>v\<in>set row. \<exists>r\<ge>0. v = Fin r)"
    by (simp add: ncols_def)
  have gx: "gradient (arange (ncols ?D) 1) = Inr [Fin 1, Fin 1]"
    using gradient_two by (simp add: ncols_def numeral_2_eq_2)
  have gy: "gradient (arange (nrows ?D) 1) = Inr [Fin 1, Fin 1]"
    using gradient_two by (simp add: nrows_def numeral_2_eq_2)
  have A: "grid_sum ?D [Fin 1, Fin 1] [Fin 1, Fin 1] (\<lambda>i j v. v) = Fin 0"
    by (simp add: grid_sum_def np_sum_def)
  show ?thesis
    by (rule moments_zero_intensity [OF rect _ _ gx gy A]) simp_all
qed

section \<open>Initial guess of the fit\<close>

lemma foldl_min_Fin: "foldl fl_min2 (Fin x) (map Fin xs) = Fin (foldl min x xs)"
  by (induction xs arbitrary: x) (simp_all add: fl_min2_def min_def)

lemma foldl_max_Fin: "foldl fl_max2 (Fin x) (map Fin xs) = Fin (foldl max x xs)"
  by (induction xs arbitrary: x) (simp_all add: fl_max2_def max_def)

lemma foldl_min_Min: "foldl min (x::real) xs = Min (insert x (set xs))"
proof (induction xs arbitrary: x)
  case Nil
  then show ?case by simp
next
  case (Cons y ys)
  have "Min (insert (min x y) (set ys)) = Min (insert x (insert y (set ys)))"
    by (cases "set ys = {}") (simp_all add: min.assoc)
  then show ?case using Cons by simp
qed

lemma foldl_max_Max: "foldl max (x::real) xs = Max (insert x (set xs))"
proof (induction xs arbitrary: x)
  case Nil
  then show ?case by simp
next
  case (Cons y ys)
  have "Max (insert (max x y) (set ys)) = Max (insert x (insert y (set ys)))"
    by (cases "set ys = {}") (simp_all add: max.assoc)
  then show ?case using Cons by simp
qed

lemma amin_Fin: "dz \<noteq> [] \<Longrightarrow> amin (map Fin dz) = Inr (Fin (Min (set dz)))"
  by (cases dz) (simp_all add: foldl_min_Fin foldl_min_Min)

lemma amax_Fin: "dz \<noteq> [] \<Longrightarrow> amax (map Fin dz) = Inr (Fin (Max (set dz)))"
  by (cases dz) (simp_all add: foldl_max_Fin foldl_max_Max)

lemma first_index_map_Fin: "first_index (Fin v) (map Fin xs) = first_index v xs"
  by (induction xs) simp_all

lemma first_index_mem:
  "v \<in> set xs \<Longrightarrow> first_index v xs < length xs \<and> xs ! first_index v xs = v"
  by (induction xs) auto

text \<open>
  C6.  For a non-empty sequence of finite diameters \<open>dz\<close> with positions \<open>z\<close>,
  \<open>fit_M2\<close> takes a sample \<open>i\<close> of minimum diameter and a sample \<open>m\<close> of maximum
  diameter and starts the fit from them: it calls \<open>curve_fit\<close> with \<open>z\<close>, \<open>dz\<close> and the
  guess \<open>[a0, b0, c0]\<close>, where \<open>c0 = (atan ((dm - di) / (zm - zi)))\<^sup>2\<close>,
  \<open>b0 = -2 zi c0\<close> and \<open>a0 = di\<^sup>2 + c0 zi\<^sup>2\<close> in floating-point arithmetic; where
  \<open>zm \<noteq> zi\<close> these are the real values of the three formulas.  What \<open>fit_M2\<close> returns
  is what the later steps make of the result of that call.
\<close>

theorem fit_M2_initial_guess:
  assumes ne: "dz \<noteq> []" and len: "length z = length dz"
  shows "\<exists>i m. i < length dz \<and> m < length dz
           \<and> (\<forall>k<length dz. dz ! i \<le> dz ! k) \<and> (\<forall>k<length dz. dz ! k \<le> dz ! m)
           \<and> fit_M2 curve_fit propagate (map Fin dz) (map Fin z) wl =
               (case curve_fit (map Fin z) (map Fin dz)
                       (let t = fl_arctan (fl_div (Fin (dz ! m - dz ! i)) (Fin (z ! m - z ! i)));
                            c0 = fl_mul t t
                        in [fl_add (Fin ((dz ! i)\<^sup>2)) (fl_mul c0 (Fin ((z ! i)\<^sup>2))),
                            fl_mul (Fin (- 2 * z ! i)) c0,
                            c0])
                of Inl e \<Rightarrow> Inl e | Inr fit \<Rightarrow> propagate fit wl)
           \<and> (z ! m \<noteq> z ! i \<longrightarrow>
                fit_M2 curve_fit propagate (map Fin dz) (map Fin z) wl =
                  (case curve_fit (map Fin z) (map Fin dz)
                     [Fin ((dz ! i)\<^sup>2 + (arctan ((dz ! m - dz ! i) / (z ! m - z ! i)))\<^sup>2 * (z ! i)\<^sup>2),
                      Fin (- 2 * z ! i * (arctan ((dz ! m - dz ! i) / (z ! m - z ! i)))\<^sup>2),
                      Fin ((arctan ((dz ! m - dz ! i) / (z ! m - z ! i)))\<^sup>2)]
                   of Inl e \<Rightarrow> Inl e | Inr fit \<Rightarrow> propagate fit wl))"
proof -
  define i where "i = first_index (Min (set dz)) dz"
  define m where "m = first_index (Max (set dz)) dz"
  have "Min (set dz) \<in> set dz" using ne by (simp add: Min_in)
  then have i: "i < length dz" "dz ! i = Min (set dz)"
    using first_index_mem [of "Min (set dz)" dz] by (simp_all add: i_def)
  have "Max (set dz) \<in> set dz" using ne by (simp add: Max_in)
  then have m: "m < length dz" "dz ! m = Max (set dz)"
    using first_index_mem [of "Max (set dz)" dz] by (simp_all add: m_def)
  have lo: "\<forall>k<length dz. dz ! i \<le> dz ! k" using i by simp
  have hi: "\<forall>k<length dz. dz ! k \<le> dz ! m" using m by simp
  have a1: "amin (map Fin dz) = Inr (Fin (dz ! i))" using amin_Fin [OF ne] i(2) by simp
  have a2: "argmin (map Fin dz) = Inr i"
    by (simp add: argmin_def amin_Fin [OF ne] first_index_map_Fin i_def)
  have a3: "item (map Fin z) i = Inr (Fin (z ! i))" using i len by (simp add: item_def)
  have b1: "amax (map Fin dz) = Inr (Fin (dz ! m))" using amax_Fin [OF ne] m(2) by simp
  have b2: "argmax (map Fin dz) = Inr m"
    by (simp add: argmax_def amax_Fin [OF ne] first_index_map_Fin m_def)
  have b3: "item (map Fin z) m = Inr (Fin (z ! m))" using m len by (simp add: item_def)
  have p0: "fit_M2_p0 (map Fin dz) (map Fin z) =
               Inr (let t = fl_arctan (fl_div (Fin (dz ! m - dz ! i)) (Fin (z ! m - z ! i)));
                        c0 = fl_mul t t
                    in [fl_add (Fin ((dz ! i)\<^sup>2)) (fl_mul c0 (Fin ((z ! i)\<^sup>2))),
                        fl_mul (Fin (- 2 * z ! i)) c0,
                        c0])"
    by (simp add: fit_M2_p0_def a1 a2 a3 b1 b2 b3 fl_sub_def Let_def power2_eq_square)
  have real: "z ! m \<noteq> z ! i \<Longrightarrow>
               (let t = fl_arctan (fl_div (Fin (dz ! m - dz ! i)) (Fin (z ! m - z ! i)));
                        c0 = fl_mul t t
                    in [fl_add (Fin ((dz ! i)\<^sup>2)) (fl_mul c0 (Fin ((z ! i)\<^sup>2))),
                        fl_mul (Fin (- 2 * z ! i)) c0,
                        c0])
               = [Fin ((dz ! i)\<^sup>2 + (arctan ((dz ! m - dz ! i) / (z ! m - z ! i)))\<^sup>2 * (z ! i)\<^sup>2),
                  Fin (- 2 * z ! i * (arctan ((dz ! m - dz ! i) / (z ! m - z ! i)))\<^sup>2),
                  Fin ((arctan ((dz ! m - dz ! i) / (z ! m - z ! i)))\<^sup>2)]"
    by (simp add: Let_def power2_eq_square)
  have f: "fit_M2 curve_fit propagate (map Fin dz) (map Fin z) wl =
               (case curve_fit (map Fin z) (map Fin dz)
                       (let t = fl_arctan (fl_div (Fin (dz ! m - dz ! i)) (Fin (z ! m - z ! i)));
                            c0 = fl_mul t t
                        in [fl_add (Fin ((dz ! i)\<^sup>2)) (fl_mul c0 (Fin ((z ! i)\<^sup>2))),
                            fl_mul (Fin (- 2 * z ! i)) c0,
                            c0])
                of Inl e \<Rightarrow> Inl e | Inr fit \<Rightarrow> propagate fit wl)"
    unfolding fit_M2_def p0 by (simp only: sum.case)
  have g: "z ! m \<noteq> z ! i \<longrightarrow>
                fit_M2 curve_fit propagate (map Fin dz) (map Fin z) wl =
                  (case curve_fit (map Fin z) (map Fin dz)
                     [Fin ((dz ! i)\<^sup>2 + (arctan ((dz ! m - dz ! i) / (z ! m - z ! i)))\<^sup>2 * (z ! i)\<^sup>2),
                      Fin (- 2 * z ! i * (arctan ((dz ! m - dz ! i) / (z ! m - z ! i)))\<^sup>2),
                      Fin ((arctan ((dz ! m - dz ! i) / (z ! m - z ! i)))\<^sup>2)]
                   of Inl e \<Rightarrow> Inl e | Inr fit \<Rightarrow> propagate fit wl)"
    using f real by simp
  show ?thesis using i(1) m(1) lo hi f g by blast
qed

theorem fit_M2_initial_guess_witness:
  "fit_M2 (\<lambda>z dz p0. Inr (z, dz, p0)) (\<lambda>fit wl. Inr (fit, wl))
       [Fin 3, Fin 1, Fin 2] [Fin 0, Fin 1, Fin 2] (103 / 10 ^ 8) =
     Inr (([Fin 0, Fin 1, Fin 2], [Fin 3, Fin 1, Fin 2],
           [Fin (1\<^sup>2 + (arctan ((3 - 1) / (0 - 1)))\<^sup>2 * 1\<^sup>2),
            Fin (- 2 * 1 * (arctan ((3 - 1) / (0 - 1)))\<^sup>2),
            Fin ((arctan ((3 - 1) / (0 - 1)))\<^sup>2)]), 103 / 10 ^ 8)"
proof -
  let ?dz = "[3, 1, 2] :: real list" and ?z = "[0, 1, 2] :: real list"
  let ?cf = "\<lambda>(z :: fl list) (dz :: fl list) (p0 :: fl list). (Inr (z, dz, p0) :: error + (fl list \<times> fl list \<times> fl list))"
  let ?pr = "\<lambda>(fit :: fl list \<times> fl list \<times> fl list) (wl :: real). (Inr (fit, wl) :: error + ((fl list \<times> fl list \<times> fl list) \<times> real))"
  obtain i m where im: "i < length ?dz" "m < length ?dz"
      "\<forall>k<length ?dz. ?dz ! i \<le> ?dz ! k" "\<forall>k<length ?dz. ?dz ! k \<le> ?dz ! m"
      "?z ! m \<noteq> ?z ! i \<longrightarrow>
         fit_M2 ?cf ?pr (map Fin ?dz) (map Fin ?z) (103 / 10 ^ 8) =
           (case ?cf (map Fin ?z) (map Fin ?dz)
              [Fin ((?dz ! i)\<^sup>2 + (arctan ((?dz ! m - ?dz ! i) / (?z ! m - ?z ! i)))\<^sup>2 * (?z ! i)\<^sup>2),
               Fin (- 2 * ?z ! i * (arctan ((?dz ! m - ?dz ! i) / (?z ! m - ?z ! i)))\<^sup>2),
               Fin ((arctan ((?dz ! m - ?dz ! i) / (?z ! m - ?z ! i)))\<^sup>2)]
            of Inl e \<Rightarrow> Inl e | Inr fit \<Rightarrow> ?pr fit (103 / 10 ^ 8))"
    using fit_M2_initial_guess [of ?dz ?z ?cf ?pr "103 / 10 ^ 8"] by auto
  have cases_i: "i = 0 \<or> i = 1 \<or> i = 2" using im(1) by auto
  have cases_m: "m = 0 \<or> m = 1 \<or> m = 2" using im(2) by auto
  have "?dz ! i \<le> ?dz ! 1" using im(3) [rule_format, of 1] by simp
  then have i: "i = 1" using cases_i by auto
  have "?dz ! 0 \<le> ?dz ! m" using im(4) [rule_format, of 0] by simp
  then have m: "m = 0" using cases_m by auto
  show ?thesis using im(5) unfolding i m by simp
qed

section \<open>The refinement loop\<close>
















































end
